theory Spec2Isabelle
  imports Main
begin

section \<open>fmutex: a mutual exclusion lock on filesystem hard links\<close>

text \<open>
  A shallow embedding of \<^verbatim>\<open>mutex/mutex.go\<close>.  One engine's calls run against a
  filesystem of regular files (a map from path to content).  What the operating
  system, the clock and the context decide is handed to every function as an
  argument: whether a system call fails, what \<^verbatim>\<open>time.Now().UnixNano()\<close> reads, whether
  the context's \<^verbatim>\<open>Done\<close> channel wins a \<^verbatim>\<open>select\<close>.  Every system call is also logged,
  in order, in the \<open>trace\<close> of the world, so that "the call never does X" is a
  statement about the trace.  Paths follow the Unix rules (separator \<^verbatim>\<open>/\<close>).
\<close>

subsection \<open>64-bit integers and durations\<close>

text \<open>\<^verbatim>\<open>int64\<close> is \<open>int\<close>; where the source multiplies or subtracts values that are not
  bounded by the clock, the wrap-around is written out.\<close>

definition wrap64 :: "int \<Rightarrow> int" where
  "wrap64 x = (x + 2 ^ 63) mod 2 ^ 64 - 2 ^ 63"

definition in_int64 :: "int \<Rightarrow> bool" where
  "in_int64 x \<longleftrightarrow> - (2 ^ 63) \<le> x \<and> x < 2 ^ 63"

text \<open>Go's \<^verbatim>\<open>/\<close> on integers truncates towards zero.\<close>

definition quo :: "int \<Rightarrow> int \<Rightarrow> int" where
  "quo a b = sgn a * sgn b * (\<bar>a\<bar> div \<bar>b\<bar>)"

text \<open>\<^verbatim>\<open>time.Duration\<close> counts nanoseconds.\<close>

definition Millisecond :: int where "Millisecond = 1000000"
definition Second :: int where "Second = 1000 * Millisecond"
definition Minute :: int where "Minute = 60 * Second"

definition DefaultPulse :: int where "DefaultPulse = 500 * Millisecond"
definition DefaultRefresh :: int where "DefaultRefresh = 10 * Second"
definition DefaultDeadTimeout :: int where "DefaultDeadTimeout = 60 * Minute"

definition nano2Millis :: "int \<Rightarrow> int" where
  "nano2Millis v = quo v 1000000"

definition millis :: "int \<Rightarrow> int" where
  "millis d = nano2Millis d"

text \<open>\<^verbatim>\<open>now()\<close>: the argument is the reading of \<^verbatim>\<open>time.Now().UnixNano()\<close>.\<close>

definition now :: "int \<Rightarrow> int" where
  "now unixNano = nano2Millis unixNano"

subsection \<open>Decimal text: \<^verbatim>\<open>fmt.Sprintf("%d\n", _)\<close>, \<^verbatim>\<open>strings.TrimSpace\<close>, \<^verbatim>\<open>strconv.ParseInt\<close>\<close>

definition digit_char :: "int \<Rightarrow> char" where
  "digit_char d = char_of (48 + d)"

text \<open>\<^verbatim>\<open>formatBits\<close> for base 10 and \<open>0 \<le> u\<close>.  The digits are produced from the least
  significant one, in front of what is already there, as \<^verbatim>\<open>strconv\<close> fills its
  buffer from the end.\<close>

function formatBits :: "int \<Rightarrow> string \<Rightarrow> string" where
  "formatBits u acc =
     (if 10 \<le> u then formatBits (u div 10) (digit_char (u mod 10) # acc)
      else digit_char u # acc)"
  by pat_completeness auto
termination
  by (relation "measure (\<lambda>(u, acc). nat u)") auto

declare formatBits.simps [simp del]

definition Sprintf_d :: "int \<Rightarrow> string" where
  "Sprintf_d n = (if n < 0 then CHR ''-'' # formatBits (- n) [] else formatBits n [])"

definition Sprintf_d_nl :: "int \<Rightarrow> string" where
  "Sprintf_d_nl n = Sprintf_d n @ [CHR 0x0A]"

text \<open>The white space of \<^verbatim>\<open>unicode.IsSpace\<close>, in UTF-8: tab, line feed, vertical tab,
  form feed, carriage return, space, U+0085, U+00A0, U+1680, U+2000 to U+200A,
  U+2028, U+2029, U+202F, U+205F, U+3000.\<close>

definition white_space :: "string list" where
  "white_space =
     [[CHR 0x09], [CHR 0x0A], [CHR 0x0B], [CHR 0x0C], [CHR 0x0D], [CHR 0x20],
      [CHR 0xC2, CHR 0x85], [CHR 0xC2, CHR 0xA0],
      [CHR 0xE1, CHR 0x9A, CHR 0x80],
      [CHR 0xE2, CHR 0x80, CHR 0x80], [CHR 0xE2, CHR 0x80, CHR 0x81],
      [CHR 0xE2, CHR 0x80, CHR 0x82], [CHR 0xE2, CHR 0x80, CHR 0x83],
      [CHR 0xE2, CHR 0x80, CHR 0x84], [CHR 0xE2, CHR 0x80, CHR 0x85],
      [CHR 0xE2, CHR 0x80, CHR 0x86], [CHR 0xE2, CHR 0x80, CHR 0x87],
      [CHR 0xE2, CHR 0x80, CHR 0x88], [CHR 0xE2, CHR 0x80, CHR 0x89],
      [CHR 0xE2, CHR 0x80, CHR 0x8A],
      [CHR 0xE2, CHR 0x80, CHR 0xA8], [CHR 0xE2, CHR 0x80, CHR 0xA9],
      [CHR 0xE2, CHR 0x80, CHR 0xAF], [CHR 0xE2, CHR 0x81, CHR 0x9F],
      [CHR 0xE3, CHR 0x80, CHR 0x80]]"

fun strip_prefix :: "string \<Rightarrow> string \<Rightarrow> string option" where
  "strip_prefix [] s = Some s"
| "strip_prefix (p # ps) [] = None"
| "strip_prefix (p # ps) (c # cs) = (if p = c then strip_prefix ps cs else None)"

text \<open>The rest of \<open>s\<close> after one leading white space out of the list, if there is one.\<close>

fun strip_space :: "string list \<Rightarrow> string \<Rightarrow> string option" where
  "strip_space [] s = None"
| "strip_space (p # ps) s =
     (case (if p = [] then None else strip_prefix p s) of
        Some r \<Rightarrow> Some r
      | None \<Rightarrow> strip_space ps s)"

lemma strip_prefix_length: "strip_prefix p s = Some r \<Longrightarrow> length s = length p + length r"
  by (induction p s rule: strip_prefix.induct) (auto split: if_splits)

lemma strip_space_length: "strip_space ps s = Some r \<Longrightarrow> length r < length s"
  by (induction ps) (auto split: option.splits if_splits dest: strip_prefix_length)

function trim_left :: "string list \<Rightarrow> string \<Rightarrow> string" where
  "trim_left ps s = (case strip_space ps s of None \<Rightarrow> s | Some r \<Rightarrow> trim_left ps r)"
  by pat_completeness auto
termination
  by (relation "measure (\<lambda>(ps, s). length s)") (auto dest: strip_space_length)

declare trim_left.simps [simp del]

text \<open>\<^verbatim>\<open>strings.TrimSpace\<close>: white space is cut from the front, then from the back.\<close>

definition TrimSpace :: "string \<Rightarrow> string" where
  "TrimSpace s = rev (trim_left (map rev white_space) (rev (trim_left white_space s)))"

definition digit_val :: "char \<Rightarrow> int option" where
  "digit_val c =
     (let v = (of_char c :: int) in if 48 \<le> v \<and> v \<le> 57 then Some (v - 48) else None)"

fun parse_digits :: "int \<Rightarrow> string \<Rightarrow> int option" where
  "parse_digits n [] = Some n"
| "parse_digits n (c # cs) =
     (case digit_val c of None \<Rightarrow> None | Some d \<Rightarrow> parse_digits (n * 10 + d) cs)"

text \<open>\<^verbatim>\<open>strconv.ParseUint(s, 10, 64)\<close>: \<open>None\<close> is any error (syntax or range).\<close>

definition ParseUint :: "string \<Rightarrow> int option" where
  "ParseUint s =
     (if s = [] then None
      else case parse_digits 0 s of
             None \<Rightarrow> None
           | Some n \<Rightarrow> if n < 2 ^ 64 then Some n else None)"

text \<open>\<^verbatim>\<open>strconv.ParseInt(s, 10, 64)\<close>: an optional sign, then \<^verbatim>\<open>ParseUint\<close>, then the
  range of \<^verbatim>\<open>int64\<close>.  \<open>None\<close> is any error.\<close>

definition ParseInt :: "string \<Rightarrow> int option" where
  "ParseInt s =
     (case s of
        [] \<Rightarrow> None
      | c # cs \<Rightarrow>
          let neg = (c = CHR ''-'');
              s1 = (if c = CHR ''+'' \<or> c = CHR ''-'' then cs else s)
          in case ParseUint s1 of
               None \<Rightarrow> None
             | Some un \<Rightarrow>
                 if \<not> neg \<and> 2 ^ 63 \<le> un then None
                 else if neg \<and> 2 ^ 63 < un then None
                 else if neg then Some (- un)
                 else Some un)"

subsection \<open>The world: files and the log of system calls\<close>

datatype event =
    EvMkdirAll string
  | EvCreateTemp string string
  | EvCreate string
  | EvWrite string string
  | EvReadFile string
  | EvRemove string
  | EvLink string string
  | EvSleep int
  | EvSleepOrDone int bool

record world =
  files :: "string \<rightharpoonup> string"
  trace :: "event list"

definition log_event :: "event \<Rightarrow> world \<Rightarrow> world" where
  "log_event ev w = w\<lparr>trace := trace w @ [ev]\<rparr>"

datatype error =
    OsError
  | CannotCreateDirectory
  | CannotCreateCandidate
  | CannotWriteCandidate
  | CannotWriteTarget
  | Expired

text \<open>Each system call takes a flag \<open>fails\<close>: the operating system refuses the call for
  a reason outside the model (permissions, a full disk, an I/O error).  A result
  \<open>None\<close> of type \<open>error option\<close> is Go's \<^verbatim>\<open>nil\<close> error.\<close>

definition os_ReadFile :: "string \<Rightarrow> bool \<Rightarrow> world \<Rightarrow> string option \<times> world" where
  "os_ReadFile name fails w =
     ((if fails then None else files w name), log_event (EvReadFile name) w)"

text \<open>\<^verbatim>\<open>os.Create\<close> creates the file or truncates it.\<close>

definition os_Create :: "string \<Rightarrow> bool \<Rightarrow> world \<Rightarrow> error option \<times> world" where
  "os_Create name fails w =
     (if fails then (Some OsError, log_event (EvCreate name) w)
      else (None, log_event (EvCreate name) (w\<lparr>files := (files w)(name \<mapsto> [])\<rparr>)))"

text \<open>\<^verbatim>\<open>f.Write\<close> on a file just opened by \<^verbatim>\<open>os.Create\<close>: the content becomes the data.
  A write that fails leaves the file as \<^verbatim>\<open>os.Create\<close> left it, empty.\<close>

definition file_Write :: "string \<Rightarrow> string \<Rightarrow> bool \<Rightarrow> world \<Rightarrow> error option \<times> world" where
  "file_Write name data fails w =
     (if fails then (Some OsError, log_event (EvWrite name data) w)
      else (None, log_event (EvWrite name data) (w\<lparr>files := (files w)(name \<mapsto> data)\<rparr>)))"

definition os_Remove :: "string \<Rightarrow> bool \<Rightarrow> world \<Rightarrow> error option \<times> world" where
  "os_Remove name fails w =
     (if fails \<or> files w name = None then (Some OsError, log_event (EvRemove name) w)
      else (None, log_event (EvRemove name) (w\<lparr>files := (files w)(name := None)\<rparr>)))"

text \<open>\<^verbatim>\<open>os.Link\<close> fails when the old name does not exist or the new name exists already.
  The new name gets the content of the old one.  (On disk the two names are then
  one file.  The only write this program makes after a link goes to the new name,
  and the old name, the candidate, is not read again before it is removed.)\<close>

definition os_Link :: "string \<Rightarrow> string \<Rightarrow> bool \<Rightarrow> world \<Rightarrow> error option \<times> world" where
  "os_Link oldname newname fails w =
     (case files w oldname of
        None \<Rightarrow> (Some OsError, log_event (EvLink oldname newname) w)
      | Some content \<Rightarrow>
          if fails \<or> files w newname \<noteq> None
          then (Some OsError, log_event (EvLink oldname newname) w)
          else (None, log_event (EvLink oldname newname)
                        (w\<lparr>files := (files w)(newname \<mapsto> content)\<rparr>)))"

subsection \<open>Timestamps in files\<close>

definition readTimestamp :: "string \<Rightarrow> bool \<Rightarrow> world \<Rightarrow> int \<times> world" where
  "readTimestamp fileName fails w =
     (case os_ReadFile fileName fails w of
        (None, w') \<Rightarrow> (0, w')
      | (Some b, w') \<Rightarrow>
          (case ParseInt (TrimSpace b) of
             Some v \<Rightarrow> (v, w')
           | None \<Rightarrow> (0, w')))"

text \<open>\<^verbatim>\<open>writeCurrentTimestamp(f)\<close>, for the file \<open>f\<close> open at \<open>name\<close>; \<open>unixNano\<close> is what
  the clock reads.\<close>

definition writeCurrentTimestamp ::
  "string \<Rightarrow> int \<Rightarrow> bool \<Rightarrow> world \<Rightarrow> (int \<times> error option) \<times> world" where
  "writeCurrentTimestamp name unixNano fails w =
     (let timestamp = now unixNano in
      case file_Write name (Sprintf_d_nl timestamp) fails w of
        (Some err, w') \<Rightarrow> ((timestamp, Some err), w')
      | (None, w') \<Rightarrow> ((timestamp, None), w'))"

subsection \<open>Paths: \<^verbatim>\<open>path.Clean\<close>, \<^verbatim>\<open>path.Join\<close>, \<^verbatim>\<open>filepath.Abs\<close>\<close>

fun split_on :: "char \<Rightarrow> string \<Rightarrow> string list" where
  "split_on c [] = [[]]"
| "split_on c (x # xs) =
     (if x = c then [] # split_on c xs
      else case split_on c xs of
             [] \<Rightarrow> [[x]]
           | y # ys \<Rightarrow> (x # y) # ys)"

fun join_slash :: "string list \<Rightarrow> string" where
  "join_slash [] = []"
| "join_slash [e] = e"
| "join_slash (e # e' # es) = e @ CHR ''/'' # join_slash (e' # es)"

text \<open>One path element in \<^verbatim>\<open>path.Clean\<close>; \<open>out\<close> holds the elements kept so far.  An
  empty element and \<^verbatim>\<open>.\<close> are dropped; \<^verbatim>\<open>..\<close> removes the element before it, is
  dropped at the root, and is kept at the front of a relative path.\<close>

definition clean_elem :: "bool \<Rightarrow> string list \<Rightarrow> string \<Rightarrow> string list" where
  "clean_elem rooted out e =
     (if e = [] \<or> e = ''.'' then out
      else if e = ''..'' then
        (if out \<noteq> [] \<and> last out \<noteq> ''..'' then butlast out
         else if \<not> rooted then out @ [''..'']
         else out)
      else out @ [e])"

definition Clean :: "string \<Rightarrow> string" where
  "Clean p =
     (if p = [] then ''.''
      else let rooted = (hd p = CHR ''/'');
               out = foldl (clean_elem rooted) [] (split_on (CHR ''/'') p)
           in if rooted then CHR ''/'' # join_slash out
              else if out = [] then ''.''
              else join_slash out)"

definition path_Join :: "string list \<Rightarrow> string" where
  "path_Join elem =
     (let es = filter (\<lambda>e. e \<noteq> []) elem
      in if es = [] then [] else Clean (join_slash es))"

definition IsAbs :: "string \<Rightarrow> bool" where
  "IsAbs p \<longleftrightarrow> (case p of [] \<Rightarrow> False | c # cs \<Rightarrow> c = CHR ''/'')"

text \<open>\<^verbatim>\<open>filepath.Abs\<close>; \<open>getwd\<close> is the result of \<^verbatim>\<open>os.Getwd()\<close>, \<open>None\<close> when it fails.\<close>

definition Abs :: "string option \<Rightarrow> string \<Rightarrow> error + string" where
  "Abs getwd p =
     (if IsAbs p then Inr (Clean p)
      else case getwd of
             None \<Rightarrow> Inl OsError
           | Some wd \<Rightarrow> Inr (path_Join [wd, p]))"

text \<open>\<^verbatim>\<open>strings.ToLower\<close> on ASCII text: the letters A to Z are mapped, every other
  byte is kept.  (On text that is not ASCII Go maps the other upper-case letters of
  Unicode too; identifiers are ASCII here.)\<close>

definition lower_char :: "char \<Rightarrow> char" where
  "lower_char c =
     (let v = (of_char c :: nat) in if 65 \<le> v \<and> v \<le> 90 then char_of (v + 32) else c)"

definition ToLower :: "string \<Rightarrow> string" where
  "ToLower s = map lower_char s"

subsection \<open>The mutex\<close>

record Mutex =
  id_m :: string
  directory :: string
  deadAgeRecovery :: int
  pulse :: int
  refresh :: int

definition lockTemplate :: "string \<Rightarrow> string" where
  "lockTemplate name = name @ ''-mutex.lck''"

definition LockPath :: "Mutex \<Rightarrow> string" where
  "LockPath m = path_Join [directory m, lockTemplate (id_m m)]"

text \<open>\<^verbatim>\<open>NewMutexExt\<close>; \<open>getwd\<close> is the result of \<^verbatim>\<open>os.Getwd()\<close> and \<open>mkdir_fails\<close> says
  whether \<^verbatim>\<open>os.MkdirAll\<close> fails.  Directories are not part of \<open>files\<close>.\<close>

definition NewMutexExt ::
  "string option \<Rightarrow> bool \<Rightarrow> string \<Rightarrow> string \<Rightarrow> int \<Rightarrow> int \<Rightarrow> int \<Rightarrow> world
     \<Rightarrow> (error + Mutex) \<times> world" where
  "NewMutexExt getwd mkdir_fails root lockId pulse0 refresh0 deadTimeout w =
     (case (if \<not> IsAbs root then Abs getwd root else Inr root) of
        Inl err \<Rightarrow> (Inl err, w)
      | Inr root' \<Rightarrow>
          let dir = path_Join [root', lockId];
              w' = log_event (EvMkdirAll dir) w
          in if mkdir_fails then (Inl CannotCreateDirectory, w')
             else
               let pulse1 = (if pulse0 \<le> 0 then DefaultPulse else pulse0);
                   refresh1 = (if refresh0 \<le> 0 then DefaultRefresh else refresh0)
               in (Inr \<lparr>id_m = ToLower lockId, directory = dir,
                         deadAgeRecovery = deadTimeout, pulse = pulse1,
                         refresh = refresh1\<rparr>, w'))"

definition NewMutex ::
  "string option \<Rightarrow> bool \<Rightarrow> string \<Rightarrow> string \<Rightarrow> world \<Rightarrow> (error + Mutex) \<times> world" where
  "NewMutex getwd mkdir_fails root lockId w =
     NewMutexExt getwd mkdir_fails root lockId DefaultPulse DefaultRefresh DefaultDeadTimeout w"

text \<open>A \<^verbatim>\<open>time.Time\<close> is the zero time \<^verbatim>\<open>time.Time{}\<close> (1 January of year 1, which no
  \<^verbatim>\<open>time.Unix(0, n)\<close> with a 64-bit \<open>n\<close> reaches) or the instant \<open>n\<close> nanoseconds after
  the Unix epoch.\<close>

datatype time = ZeroTime | UnixNano int

text \<open>\<^verbatim>\<open>When\<close>; the product \<^verbatim>\<open>tm*int64(time.Millisecond)\<close> is a 64-bit one.\<close>

definition When :: "Mutex \<Rightarrow> bool \<Rightarrow> world \<Rightarrow> time \<times> world" where
  "When m read_fails w =
     (case readTimestamp (LockPath m) read_fails w of
        (tm, w') \<Rightarrow>
          if tm \<noteq> 0 then (UnixNano (wrap64 (tm * Millisecond)), w')
          else (ZeroTime, w'))"

subsection \<open>Contexts and sleeping\<close>

datatype "context" = Background | WithTimeout "context" int | WithCancel "context"

text \<open>\<^verbatim>\<open>ctx.Done()\<close> of the background context is a nil channel, which no \<^verbatim>\<open>select\<close>
  ever receives from.\<close>

fun has_done :: "context \<Rightarrow> bool" where
  "has_done Background = False"
| "has_done (WithTimeout parent timeout) = True"
| "has_done (WithCancel parent) = True"

text \<open>\<^verbatim>\<open>time.Sleep\<close> takes no context.\<close>

definition time_Sleep :: "int \<Rightarrow> world \<Rightarrow> world" where
  "time_Sleep d w = log_event (EvSleep d) w"

text \<open>\<^verbatim>\<open>sleepOrDone\<close>; \<open>fired\<close> says whether the \<^verbatim>\<open>Done\<close> channel of a context that has one
  is ready before the timer is.\<close>

definition sleepOrDone :: "context \<Rightarrow> int \<Rightarrow> bool \<Rightarrow> world \<Rightarrow> bool \<times> world" where
  "sleepOrDone ctx delay fired w =
     (let done = (has_done ctx \<and> fired) in (done, log_event (EvSleepOrDone delay done) w))"

subsection \<open>\<^verbatim>\<open>ioutil.TempFile\<close> (\<^verbatim>\<open>os.CreateTemp\<close>)\<close>

definition lockCandidateTemplate :: "string \<Rightarrow> string" where
  "lockCandidateTemplate name = name @ ''-candidate-*.tmp''"

text \<open>The pattern is cut at its last \<^verbatim>\<open>*\<close>; a pattern with a path separator is an error.\<close>

definition prefixAndSuffix :: "string \<Rightarrow> (string \<times> string) option" where
  "prefixAndSuffix pattern =
     (if CHR ''/'' \<in> set pattern then None
      else if CHR ''*'' \<in> set pattern then
        Some (rev (tl (dropWhile (\<lambda>c. c \<noteq> CHR ''*'') (rev pattern))),
              rev (takeWhile (\<lambda>c. c \<noteq> CHR ''*'') (rev pattern)))
      else Some (pattern, []))"

definition joinPath :: "string \<Rightarrow> string \<Rightarrow> string" where
  "joinPath dir name =
     (if dir \<noteq> [] \<and> last dir = CHR ''/'' then dir @ name else dir @ CHR ''/'' # name)"

text \<open>What the environment decides for one call of \<^verbatim>\<open>LockWithContext\<close> outside its loop:
  the directory \<^verbatim>\<open>os.TempDir()\<close>, the random strings that \<^verbatim>\<open>CreateTemp\<close> draws, whether
  creating the candidate fails, whether the deferred removal of the candidate fails.\<close>

record call_env =
  temp_dir :: string
  randoms :: "string list"
  create_temp_fails :: bool
  cleanup_fails :: bool

text \<open>\<^verbatim>\<open>CreateTemp\<close> takes the first random name that is free, out of at most 10000, and
  creates an empty file there.\<close>

definition CreateTemp :: "string \<Rightarrow> string \<Rightarrow> call_env \<Rightarrow> world \<Rightarrow> (error + string) \<times> world" where
  "CreateTemp dir0 pattern ce w =
     (let dir = (if dir0 = [] then temp_dir ce else dir0);
          w' = log_event (EvCreateTemp dir0 pattern) w
      in case prefixAndSuffix pattern of
           None \<Rightarrow> (Inl OsError, w')
         | Some (prefix, suffix) \<Rightarrow>
             (case List.find (\<lambda>r. files w (joinPath dir prefix @ r @ suffix) = None)
                     (take 10000 (randoms ce)) of
                None \<Rightarrow> (Inl OsError, w')
              | Some r \<Rightarrow>
                  if create_temp_fails ce then (Inl OsError, w')
                  else let name = joinPath dir prefix @ r @ suffix
                       in (Inr name, w'\<lparr>files := (files w')(name \<mapsto> [])\<rparr>)))"

subsection \<open>\<^verbatim>\<open>LockWithContext\<close>\<close>

text \<open>What the environment decides in one iteration of the loop, one field for each
  place of the loop body that asks: the clock readings (\<^verbatim>\<open>UnixNano\<close>) of the five calls
  of \<^verbatim>\<open>now()\<close>, the failures of the system calls, and whether the context is done
  during the wait.\<close>

record iter_env =
  clock_refresh :: int
  create_candidate_fails :: bool
  clock_candidate :: int
  write_candidate_fails :: bool
  read_target_fails :: bool
  clock_dead :: int
  remove_target_fails :: bool
  link_fails :: bool
  clock_linked :: int
  create_target_fails :: bool
  clock_target :: int
  write_target_fails :: bool
  ctx_done :: bool

definition sub64 :: "int \<Rightarrow> int \<Rightarrow> int" where
  "sub64 a b = wrap64 (a - b)"

definition mul64 :: "int \<Rightarrow> int \<Rightarrow> int" where
  "mul64 a b = wrap64 (a * b)"

text \<open>Lines 93 to 97: the candidate is opened again and the current timestamp written.
  When \<^verbatim>\<open>os.Create\<close> fails, nothing is written and the loop goes on; when the write
  fails, the call returns the error.\<close>

definition rewrite_candidate ::
  "string \<Rightarrow> int \<Rightarrow> iter_env \<Rightarrow> world \<Rightarrow> error option \<times> int \<times> world" where
  "rewrite_candidate candidate lastTimestamp e w =
     (case os_Create candidate (create_candidate_fails e) w of
        (Some err, w1) \<Rightarrow> (None, lastTimestamp, w1)
      | (None, w1) \<Rightarrow>
          (case writeCurrentTimestamp candidate (clock_candidate e) (write_candidate_fails e) w1 of
             ((timestamp, Some err), w2) \<Rightarrow> (Some CannotWriteCandidate, timestamp, w2)
           | ((timestamp, None), w2) \<Rightarrow> (None, timestamp, w2)))"

text \<open>Lines 98 to 105: the removal of a dead lock.\<close>

definition reclaim_dead :: "Mutex \<Rightarrow> string \<Rightarrow> iter_env \<Rightarrow> world \<Rightarrow> world" where
  "reclaim_dead m target e w =
     (if 0 \<le> deadAgeRecovery m then
        (case readTimestamp target (read_target_fails e) w of
           (otherTimestamp, w1) \<Rightarrow>
             if 0 < otherTimestamp then
               if millis (deadAgeRecovery m) < sub64 (now (clock_dead e)) otherTimestamp then
                 (case os_Remove target (remove_target_fails e) w1 of
                    (err, w2) \<Rightarrow> time_Sleep (mul64 (pulse m) 2) w2)
               else w1
             else w1)
      else w)"

text \<open>Lines 92 to 106: the refresh window.\<close>

definition refresh_window ::
  "Mutex \<Rightarrow> string \<Rightarrow> string \<Rightarrow> int \<Rightarrow> iter_env \<Rightarrow> world \<Rightarrow> error option \<times> int \<times> world" where
  "refresh_window m candidate target lastTimestamp e w =
     (if lastTimestamp = 0 \<or> millis (refresh m) < sub64 (now (clock_refresh e)) lastTimestamp then
        (case rewrite_candidate candidate lastTimestamp e w of
           (Some err, timestamp, w1) \<Rightarrow> (Some err, timestamp, w1)
         | (None, timestamp, w1) \<Rightarrow> (None, timestamp, reclaim_dead m target e w1))
      else (None, lastTimestamp, w))"

text \<open>Lines 108 to 116, after \<^verbatim>\<open>os.Link\<close> has returned \<^verbatim>\<open>nil\<close> in the variable \<^verbatim>\<open>err\<close> of the
  enclosing \<^verbatim>\<open>if\<close>.  The statement \<^verbatim>\<open>if f, err := os.Create(target); err == nil\<close> declares
  an \<^verbatim>\<open>err\<close> of its own, and \<^verbatim>\<open>_, err = writeCurrentTimestamp(f)\<close> assigns to that one.  The
  test \<^verbatim>\<open>if err != nil\<close> that follows is outside that statement: it reads the \<^verbatim>\<open>err\<close> of
  \<^verbatim>\<open>os.Link\<close>, here \<open>link_err\<close>.\<close>

definition rewrite_target ::
  "Mutex \<Rightarrow> string \<Rightarrow> int \<Rightarrow> error option \<Rightarrow> iter_env \<Rightarrow> world \<Rightarrow> error option \<times> world" where
  "rewrite_target m target lastTimestamp link_err e w =
     (if millis (refresh m) < sub64 (now (clock_linked e)) lastTimestamp then
        let w2 = (case os_Create target (create_target_fails e) w of
                    (Some err, w1) \<Rightarrow> w1
                  | (None, w1) \<Rightarrow>
                      snd (writeCurrentTimestamp target (clock_target e) (write_target_fails e) w1))
        in if link_err \<noteq> None then (Some CannotWriteTarget, w2) else (None, w2)
      else (None, w))"

text \<open>The loop, one element of the list for each iteration; \<open>None\<close> when the iterations
  given are used up before the loop has returned.\<close>

fun lock_loop ::
  "Mutex \<Rightarrow> context \<Rightarrow> string \<Rightarrow> string \<Rightarrow> int \<Rightarrow> iter_env list \<Rightarrow> world
     \<Rightarrow> (error option \<times> world) option" where
  "lock_loop m ctx candidate target lastTimestamp [] w = None"
| "lock_loop m ctx candidate target lastTimestamp (e # es) w =
     (case refresh_window m candidate target lastTimestamp e w of
        (Some err, timestamp, w1) \<Rightarrow> Some (Some err, w1)
      | (None, timestamp, w1) \<Rightarrow>
          (case os_Link candidate target (link_fails e) w1 of
             (None, w2) \<Rightarrow> Some (rewrite_target m target timestamp None e w2)
           | (Some err, w2) \<Rightarrow>
               (case sleepOrDone ctx (pulse m) (ctx_done e) w2 of
                  (True, w3) \<Rightarrow> Some (Some Expired, w3)
                | (False, w3) \<Rightarrow> lock_loop m ctx candidate target timestamp es w3)))"

text \<open>The deferred \<^verbatim>\<open>os.Remove(candidate)\<close> runs at every return after the candidate was
  created.\<close>

definition LockWithContext ::
  "Mutex \<Rightarrow> context \<Rightarrow> call_env \<Rightarrow> iter_env list \<Rightarrow> world \<Rightarrow> (error option \<times> world) option" where
  "LockWithContext m ctx ce es w =
     (case CreateTemp (directory m) (lockCandidateTemplate (id_m m)) ce w of
        (Inl err, w1) \<Rightarrow> Some (Some CannotCreateCandidate, w1)
      | (Inr candidate, w1) \<Rightarrow>
          (case lock_loop m ctx candidate (LockPath m) 0 es w1 of
             None \<Rightarrow> None
           | Some (result, w2) \<Rightarrow>
               Some (result, snd (os_Remove candidate (cleanup_fails ce) w2))))"



subsection \<open>Worlds and environments used as examples\<close>

definition empty_world :: world where
  "empty_world = \<lparr>files = Map.empty, trace = []\<rparr>"

text \<open>An environment in which every clock reading is \<open>t\<close>, no system call fails and the
  context is not done.\<close>

definition calm :: "int \<Rightarrow> iter_env" where
  "calm t =
     \<lparr>clock_refresh = t, create_candidate_fails = False, clock_candidate = t,
      write_candidate_fails = False, read_target_fails = False, clock_dead = t,
      remove_target_fails = False, link_fails = False, clock_linked = t,
      create_target_fails = False, clock_target = t, write_target_fails = False,
      ctx_done = False\<rparr>"

definition plain_call :: call_env where
  "plain_call =
     \<lparr>temp_dir = ''/tmp'', randoms = [''123''], create_temp_fails = False,
      cleanup_fails = False\<rparr>"

text \<open>The mutex that \<^verbatim>\<open>NewMutexExt("/tmp", "lock", 0, 0, d)\<close> returns.\<close>

definition lock_mutex :: "int \<Rightarrow> Mutex" where
  "lock_mutex d =
     \<lparr>id_m = ''lock'', directory = ''/tmp/lock'', deadAgeRecovery = d,
      pulse = DefaultPulse, refresh = DefaultRefresh\<rparr>"

text \<open>A world in which the lock of \<open>lock_mutex\<close> is held, with the given content of the
  lock file.\<close>

definition held_world :: "string \<Rightarrow> world" where
  "held_world content =
     \<lparr>files = [''/tmp/lock/lock-mutex.lck'' \<mapsto> content], trace = []\<rparr>"

subsection \<open>Statements about the log\<close>

text \<open>\<open>only P w w'\<close>: every event in the log of \<open>w'\<close> is in the log of \<open>w\<close> or satisfies \<open>P\<close>.\<close>

definition only :: "(event \<Rightarrow> bool) \<Rightarrow> world \<Rightarrow> world \<Rightarrow> bool" where
  "only P w w' \<longleftrightarrow> (\<forall>ev \<in> set (trace w'). ev \<in> set (trace w) \<or> P ev)"

text \<open>The system calls that only the removal of a dead lock makes inside the loop.\<close>

fun reclaim_event :: "event \<Rightarrow> bool" where
  "reclaim_event (EvReadFile name) = True"
| "reclaim_event (EvRemove name) = True"
| "reclaim_event (EvSleep d) = True"
| "reclaim_event ev = False"



definition is_digit :: "char \<Rightarrow> bool" where
  "is_digit c \<longleftrightarrow> 48 \<le> (of_char c :: int) \<and> (of_char c :: int) \<le> 57"

section \<open>Properties\<close>

subsection \<open>Printing and parsing a decimal\<close>

lemma of_char_digit_char: "0 \<le> d \<Longrightarrow> d < 10 \<Longrightarrow> (of_char (digit_char d) :: int) = 48 + d"
  by (simp add: digit_char_def)

lemma is_digit_digit_char: "0 \<le> d \<Longrightarrow> d < 10 \<Longrightarrow> is_digit (digit_char d)"
  by (simp add: is_digit_def of_char_digit_char)

lemma digit_val_digit_char: "0 \<le> d \<Longrightarrow> d < 10 \<Longrightarrow> digit_val (digit_char d) = Some d"
  by (simp add: digit_val_def of_char_digit_char)

lemma parse_digits_formatBits:
  "0 \<le> u \<Longrightarrow> parse_digits 0 (formatBits u acc) = parse_digits u acc"
proof (induction u acc rule: formatBits.induct)
  case (1 u acc)
  show ?case
  proof (cases "10 \<le> u")
    case True
    have "parse_digits 0 (formatBits u acc)
            = parse_digits 0 (formatBits (u div 10) (digit_char (u mod 10) # acc))"
      using True by (subst formatBits.simps) simp
    also have "\<dots> = parse_digits (u div 10) (digit_char (u mod 10) # acc)"
      using True "1.prems" by (intro "1.IH") auto
    also have "\<dots> = parse_digits (u div 10 * 10 + u mod 10) acc"
      by (simp add: digit_val_digit_char)
    finally show ?thesis by simp
  next
    case False
    then show ?thesis
      using "1.prems" by (subst formatBits.simps) (simp add: digit_val_digit_char)
  qed
qed

lemma formatBits_shape:
  "0 \<le> u \<Longrightarrow> \<exists>c cs. formatBits u acc = c # cs \<and> is_digit c"
proof (induction u acc rule: formatBits.induct)
  case (1 u acc)
  show ?case
  proof (cases "10 \<le> u")
    case True
    then show ?thesis
      using "1.IH" "1.prems" by (subst formatBits.simps) auto
  next
    case False
    then show ?thesis
      using "1.prems" by (subst formatBits.simps) (simp add: is_digit_digit_char)
  qed
qed

lemma formatBits_append: "formatBits u acc = formatBits u [] @ acc"
proof (induction "nat u" arbitrary: u acc rule: less_induct)
  case less
  show ?case
  proof (cases "10 \<le> u")
    case True
    then have small: "nat (u div 10) < nat u" by simp
    have "formatBits u acc = formatBits (u div 10) (digit_char (u mod 10) # acc)"
      using True by (subst formatBits.simps) simp
    also have "\<dots> = formatBits (u div 10) [] @ digit_char (u mod 10) # acc"
      by (rule less [OF small])
    also have "\<dots> = (formatBits (u div 10) [] @ [digit_char (u mod 10)]) @ acc"
      by simp
    also have "formatBits (u div 10) [] @ [digit_char (u mod 10)]
                 = formatBits (u div 10) [digit_char (u mod 10)]"
      by (rule less [OF small, symmetric])
    also have "\<dots> = formatBits u []"
      using True by (subst (2) formatBits.simps) simp
    finally show ?thesis .
  next
    case False
    then show ?thesis
      by (simp add: formatBits.simps)
  qed
qed

lemma formatBits_last:
  "0 \<le> u \<Longrightarrow> \<exists>cs c. formatBits u [] = cs @ [c] \<and> is_digit c"
proof (cases "10 \<le> u")
  case True
  assume "0 \<le> u"
  have "formatBits u [] = formatBits (u div 10) [] @ [digit_char (u mod 10)]"
    using True formatBits_append [of "u div 10" "[digit_char (u mod 10)]"]
    by (subst formatBits.simps) simp
  then show ?thesis
    by (auto simp: is_digit_digit_char)
next
  case False
  assume "0 \<le> u"
  with False have "formatBits u [] = [] @ [digit_char u]" "is_digit (digit_char u)"
    by (simp_all add: formatBits.simps is_digit_digit_char)
  then show ?thesis by blast
qed



lemma strip_space_None:
  "\<forall>p \<in> set ps. \<exists>x xs. p = x # xs \<and> x \<noteq> c \<Longrightarrow> strip_space ps (c # cs) = None"
  by (induction ps) auto

lemma digit_neq: "is_digit c \<Longrightarrow> (of_char d :: int) < 48 \<or> 57 < (of_char d :: int) \<Longrightarrow> d \<noteq> c"
  by (auto simp: is_digit_def)

lemma strip_space_digit: "is_digit c \<Longrightarrow> strip_space white_space (c # cs) = None"
  by (rule strip_space_None) (simp add: white_space_def digit_neq)

lemma strip_space_minus: "strip_space white_space (CHR ''-'' # cs) = None"
  by (rule strip_space_None) (simp add: white_space_def)

lemma strip_space_rev_digit: "is_digit c \<Longrightarrow> strip_space (map rev white_space) (c # cs) = None"
  by (rule strip_space_None) (simp add: white_space_def digit_neq)

lemma strip_space_rev_nl: "strip_space (map rev white_space) (CHR 0x0A # cs) = Some cs"
  by (simp add: white_space_def)

lemma trim_left_None: "strip_space ps s = None \<Longrightarrow> trim_left ps s = s"
  by (subst trim_left.simps) simp

lemma TrimSpace_Sprintf: "TrimSpace (Sprintf_d_nl n) = Sprintf_d n"
proof -
  obtain c cs where first: "Sprintf_d n = c # cs" "is_digit c \<or> c = CHR ''-''"
    using formatBits_shape [of n "[]"] formatBits_shape [of "- n" "[]"]
    by (cases "n < 0") (auto simp: Sprintf_d_def)
  obtain ds d where final: "Sprintf_d n = ds @ [d]" "is_digit d"
  proof (cases "n < 0")
    case True
    then obtain es e where "formatBits (- n) [] = es @ [e]" "is_digit e"
      using formatBits_last [of "- n"] by auto
    with True have "Sprintf_d n = (CHR ''-'' # es) @ [e]" "is_digit e"
      by (simp_all add: Sprintf_d_def)
    then show ?thesis by (rule that)
  next
    case False
    then obtain es e where "formatBits n [] = es @ [e]" "is_digit e"
      using formatBits_last [of n] by auto
    with False have "Sprintf_d n = es @ [e]" "is_digit e"
      by (simp_all add: Sprintf_d_def)
    then show ?thesis by (rule that)
  qed
  have left: "trim_left white_space (Sprintf_d_nl n) = Sprintf_d_nl n"
    using first by (intro trim_left_None) (auto simp: Sprintf_d_nl_def strip_space_digit strip_space_minus)
  have "trim_left (map rev white_space) (rev (Sprintf_d_nl n))
          = trim_left (map rev white_space) (rev (Sprintf_d n))"
    by (subst trim_left.simps) (simp add: Sprintf_d_nl_def strip_space_rev_nl)
  also have "\<dots> = rev (Sprintf_d n)"
    using final by (intro trim_left_None) (simp add: strip_space_rev_digit)
  finally show ?thesis
    by (simp add: TrimSpace_def left)
qed

lemma ParseInt_Sprintf: "in_int64 n \<Longrightarrow> ParseInt (Sprintf_d n) = Some n"
proof (cases "n < 0")
  case True
  assume range: "in_int64 n"
  obtain c cs where shape: "formatBits (- n) [] = c # cs"
    using formatBits_shape [of "- n" "[]"] True by auto
  have "parse_digits 0 (formatBits (- n) []) = Some (- n)"
    using True by (simp add: parse_digits_formatBits)
  then have "ParseUint (formatBits (- n) []) = Some (- n)"
    using range shape by (simp add: ParseUint_def in_int64_def)
  then show ?thesis
    using True range by (simp add: ParseInt_def Sprintf_d_def in_int64_def)
next
  case False
  assume range: "in_int64 n"
  obtain c cs where shape: "formatBits n [] = c # cs" "is_digit c"
    using formatBits_shape [of n "[]"] False by auto
  have sign: "c \<noteq> CHR ''+''" "c \<noteq> CHR ''-''"
    using shape(2) by (auto simp: is_digit_def)
  have "parse_digits 0 (formatBits n []) = Some n"
    using False by (simp add: parse_digits_formatBits)
  then have "ParseUint (c # cs) = Some n"
    using range shape by (simp add: ParseUint_def in_int64_def)
  then show ?thesis
    using False range sign shape(1) by (simp add: ParseInt_def Sprintf_d_def in_int64_def)
qed

subsection \<open>64-bit arithmetic on clock readings\<close>

lemma now_eq: "now t = (if t < 0 then - ((- t) div 1000000) else t div 1000000)"
  by (simp add: now_def nano2Millis_def quo_def sgn_if)

lemma div_million:
  assumes "0 \<le> (x::int)"
  shows "0 \<le> x div 1000000" and "x div 1000000 * 1000000 \<le> x" and "x div 1000000 \<le> x"
proof -
  show nonneg: "0 \<le> x div 1000000"
    using assms by (simp add: pos_imp_zdiv_nonneg_iff)
  have "x div 1000000 * 1000000 + x mod 1000000 = x"
    by (rule div_mult_mod_eq)
  moreover have "0 \<le> x mod 1000000"
    by simp
  ultimately show below: "x div 1000000 * 1000000 \<le> x"
    by linarith
  from nonneg below show "x div 1000000 \<le> x"
    by linarith
qed

lemma now_bounds:
  assumes "in_int64 t"
  shows "in_int64 (now t)" and "in_int64 (now t * Millisecond)"
proof -
  have range: "- 9223372036854775808 \<le> t" "t < 9223372036854775808"
    using assms by (simp_all add: in_int64_def)
  have "- 9223372036854775808 \<le> now t \<and> now t < 9223372036854775808
        \<and> - 9223372036854775808 \<le> now t * 1000000 \<and> now t * 1000000 < 9223372036854775808"
  proof (cases "t < 0")
    case True
    then have eq: "now t = - ((- t) div 1000000)"
      by (simp add: now_eq)
    from True div_million [of "- t"] range show ?thesis
      unfolding eq by linarith
  next
    case False
    then have eq: "now t = t div 1000000"
      by (simp add: now_eq)
    from False div_million [of t] range show ?thesis
      unfolding eq by linarith
  qed
  then show "in_int64 (now t)" and "in_int64 (now t * Millisecond)"
    by (simp_all add: in_int64_def Millisecond_def)
qed

lemma wrap64_id: "in_int64 x \<Longrightarrow> wrap64 x = x"
  by (simp add: wrap64_def in_int64_def)


subsection \<open>Writing a timestamp and reading it back\<close>

lemma writeCurrentTimestamp_eq:
  "writeCurrentTimestamp p t fails w =
     (if fails then ((now t, Some OsError), log_event (EvWrite p (Sprintf_d_nl (now t))) w)
      else ((now t, None),
            log_event (EvWrite p (Sprintf_d_nl (now t)))
              (w\<lparr>files := (files w)(p \<mapsto> Sprintf_d_nl (now t))\<rparr>)))"
  by (simp add: writeCurrentTimestamp_def file_Write_def Let_def)

lemma readTimestamp_after_write:
  assumes "in_int64 t"
  shows "fst (readTimestamp p False (snd (writeCurrentTimestamp p t False w))) = now t"
  using now_bounds(1) [OF assms]
  by (simp add: readTimestamp_def writeCurrentTimestamp_eq os_ReadFile_def
      log_event_def TrimSpace_Sprintf ParseInt_Sprintf)

text \<open>
  Claim C7, as amended.  \<^verbatim>\<open>writeCurrentTimestamp\<close> stores the millisecond value of the
  clock as a decimal followed by a line feed, \<^verbatim>\<open>readTimestamp\<close> reads the same value
  back, and \<^verbatim>\<open>When\<close> returns the instant of that millisecond, as long as the value is
  not 0.  The clock reading is any 64-bit number of nanoseconds.
\<close>

theorem timestamp_round_trip:
  assumes "in_int64 t"
  shows "fst (writeCurrentTimestamp p t False w) = (now t, None)
       \<and> files (snd (writeCurrentTimestamp p t False w)) p = Some (Sprintf_d (now t) @ [CHR 0x0A])
       \<and> fst (readTimestamp p False (snd (writeCurrentTimestamp p t False w))) = now t
       \<and> (now t \<noteq> 0 \<longrightarrow>
            fst (When m False (snd (writeCurrentTimestamp (LockPath m) t False w)))
              = UnixNano (now t * Millisecond))"
proof -
  have "fst (writeCurrentTimestamp p t False w) = (now t, None)"
    by (simp add: writeCurrentTimestamp_eq)
  moreover have "files (snd (writeCurrentTimestamp p t False w)) p
                   = Some (Sprintf_d (now t) @ [CHR 0x0A])"
    by (simp add: writeCurrentTimestamp_eq log_event_def Sprintf_d_nl_def)
  moreover note readTimestamp_after_write [OF assms, of p w]
  moreover have "now t \<noteq> 0 \<longrightarrow>
      fst (When m False (snd (writeCurrentTimestamp (LockPath m) t False w)))
        = UnixNano (now t * Millisecond)"
    using readTimestamp_after_write [OF assms, of "LockPath m" w]
      wrap64_id [OF now_bounds(2) [OF assms]]
    by (simp add: When_def split_beta)
  ultimately show ?thesis by blast
qed

theorem timestamp_round_trip_witness:
  "in_int64 1761900000123456789
   \<and> files (snd (writeCurrentTimestamp ''/tmp/lock/lock-mutex.lck'' 1761900000123456789 False empty_world))
       ''/tmp/lock/lock-mutex.lck'' = Some (''1761900000123'' @ [CHR 0x0A])
   \<and> fst (When (lock_mutex 0) False
        (snd (writeCurrentTimestamp (LockPath (lock_mutex 0)) 1761900000123456789 False empty_world)))
       = UnixNano 1761900000123000000"
proof -
  have range: "in_int64 1761900000123456789"
    by (simp add: in_int64_def)
  have ms: "now 1761900000123456789 = 1761900000123"
    by (simp add: now_def nano2Millis_def quo_def)
  have printed: "Sprintf_d 1761900000123 = ''1761900000123''"
    by code_simp
  show ?thesis
    using timestamp_round_trip [OF range, of "''/tmp/lock/lock-mutex.lck''" empty_world "lock_mutex 0"]
    by (simp add: range ms printed Millisecond_def)
qed

text \<open>
  Claim C7 as stated fails when the millisecond value written is 0: \<^verbatim>\<open>When\<close> then
  returns the zero time, not the instant 0 ms after the epoch.
\<close>

theorem zero_timestamp_counterexample:
  "fst (writeCurrentTimestamp (LockPath (lock_mutex 0)) 0 False empty_world) = (0, None)
   \<and> fst (When (lock_mutex 0) False
        (snd (writeCurrentTimestamp (LockPath (lock_mutex 0)) 0 False empty_world))) = ZeroTime
   \<and> ZeroTime \<noteq> UnixNano (0 * Millisecond)"
proof -
  have "in_int64 0"
    by (simp add: in_int64_def)
  from readTimestamp_after_write [OF this, of "LockPath (lock_mutex 0)" empty_world]
  have "fst (readTimestamp (LockPath (lock_mutex 0)) False
          (snd (writeCurrentTimestamp (LockPath (lock_mutex 0)) 0 False empty_world))) = 0"
    by (simp add: now_def nano2Millis_def quo_def)
  then show ?thesis
    by (simp add: When_def split_beta writeCurrentTimestamp_eq now_def nano2Millis_def quo_def)
qed

subsection \<open>The status query\<close>

lemma readTimestamp_zero:
  assumes "read_fails \<or> files w p = None
           \<or> (\<exists>b. files w p = Some b
                 \<and> (ParseInt (TrimSpace b) = None \<or> ParseInt (TrimSpace b) = Some 0))"
  shows "fst (readTimestamp p read_fails w) = 0"
  using assms by (auto simp: readTimestamp_def os_ReadFile_def)

text \<open>
  Claim C10.  \<^verbatim>\<open>When\<close> returns the zero time when the lock file cannot be read, is
  absent, holds text that is no 64-bit decimal, and also when it holds the
  integer 0.
\<close>

theorem When_zero_time:
  assumes "read_fails \<or> files w (LockPath m) = None
           \<or> (\<exists>b. files w (LockPath m) = Some b
                 \<and> (ParseInt (TrimSpace b) = None \<or> ParseInt (TrimSpace b) = Some 0))"
  shows "fst (When m read_fails w) = ZeroTime"
  using readTimestamp_zero [OF assms] by (simp add: When_def split_beta)

theorem When_zero_time_witness:
  "files (held_world (''0'' @ [CHR 0x0A])) (LockPath (lock_mutex 0)) = Some (''0'' @ [CHR 0x0A])
   \<and> ParseInt (TrimSpace (''0'' @ [CHR 0x0A])) = Some 0
   \<and> fst (When (lock_mutex 0) False (held_world (''0'' @ [CHR 0x0A]))) = ZeroTime
   \<and> fst (When (lock_mutex 0) False empty_world) = ZeroTime"
proof -
  have path: "LockPath (lock_mutex 0) = ''/tmp/lock/lock-mutex.lck''"
    by code_simp
  have parsed: "ParseInt (TrimSpace (''0'' @ [CHR 0x0A])) = Some 0"
    by code_simp
  have stored: "files (held_world (''0'' @ [CHR 0x0A])) (LockPath (lock_mutex 0))
                  = Some (''0'' @ [CHR 0x0A])"
    by (simp add: path held_world_def)
  have absent: "files empty_world (LockPath (lock_mutex 0)) = None"
    by (simp add: empty_world_def)
  show ?thesis
    using When_zero_time [of False "held_world (''0'' @ [CHR 0x0A])" "lock_mutex 0"]
      When_zero_time [of False empty_world "lock_mutex 0"] stored parsed absent
    by blast
qed

subsection \<open>Construction\<close>



text \<open>
  Claim C1 fails on the code.  \<^verbatim>\<open>NewMutexExt\<close> lowers the case of the identifier for the
  name of the lock file, but joins the directory from the identifier as it was
  passed: the identifiers \<^verbatim>\<open>Lock\<close> and \<^verbatim>\<open>lock\<close> under the root \<^verbatim>\<open>/tmp\<close> give two lock
  paths.
\<close>

theorem LockPath_case_sensitive_directory:
  "ToLower ''Lock'' = ToLower ''lock''
   \<and> map_sum id LockPath (fst (NewMutexExt None False ''/tmp'' ''Lock'' 0 0 0 empty_world))
       = Inr ''/tmp/Lock/lock-mutex.lck''
   \<and> map_sum id LockPath (fst (NewMutexExt None False ''/tmp'' ''lock'' 0 0 0 empty_world))
       = Inr ''/tmp/lock/lock-mutex.lck''"
  by code_simp

subsection \<open>The candidate and the lock file have different names\<close>

lemma split_on_absent: "c \<notin> set t \<Longrightarrow> split_on c t = [t]"
  by (induction t) auto

lemma split_on_last: "c \<notin> set t \<Longrightarrow> \<exists>ys y. split_on c (a @ t) = ys @ [y @ t]"
proof (induction a)
  case Nil
  then have "split_on c ([] @ t) = [] @ [[] @ t]"
    by (simp add: split_on_absent)
  then show ?case by blast
next
  case (Cons x a)
  then obtain ys y where rest: "split_on c (a @ t) = ys @ [y @ t]"
    by blast
  show ?case
  proof (cases "x = c")
    case True
    then have "split_on c ((x # a) @ t) = ([] # ys) @ [y @ t]"
      by (simp add: rest)
    then show ?thesis by blast
  next
    case False
    show ?thesis
    proof (cases ys)
      case Nil
      with False rest have "split_on c ((x # a) @ t) = [] @ [(x # y) @ t]"
        by simp
      then show ?thesis by blast
    next
      case (Cons z zs)
      with False rest have "split_on c ((x # a) @ t) = ((x # z) # zs) @ [y @ t]"
        by simp
      then show ?thesis by blast
    qed
  qed
qed

lemma join_slash_last:
  "e \<noteq> [] \<Longrightarrow> join_slash (xs @ [e]) \<noteq> [] \<and> last (join_slash (xs @ [e])) = last e"
  by (induction xs rule: join_slash.induct) auto

lemma Clean_last:
  assumes "CHR ''/'' \<notin> set t" and "3 \<le> length t"
  shows "last (Clean (a @ t)) = last t"
proof -
  obtain ys y where parts: "split_on (CHR ''/'') (a @ t) = ys @ [y @ t]"
    using split_on_last [OF assms(1)] by blast
  have long: "3 \<le> length (y @ t)"
    using assms(2) by simp
  have proper: "y @ t \<noteq> []" "y @ t \<noteq> ''.''" "y @ t \<noteq> ''..''"
    using long by (auto dest: arg_cong [where f = length])
  have t: "t \<noteq> []"
    using assms(2) by auto
  have kept: "clean_elem r out (y @ t) = out @ [y @ t]" for r out
    using proper by (simp add: clean_elem_def)
  have tail: "join_slash (out @ [y @ t]) \<noteq> []"
    "last (join_slash (out @ [y @ t])) = last t" for out
    using join_slash_last [OF proper(1), of out] t by simp_all
  show ?thesis
    using t by (simp add: Clean_def parts kept tail Let_def)
qed

lemma LockPath_last: "last (LockPath m) = CHR ''k''"
proof -
  have slash: "CHR ''/'' \<notin> set ''-mutex.lck''" and long: "3 \<le> length ''-mutex.lck''"
    by simp_all
  have "last (Clean (a @ ''-mutex.lck'')) = CHR ''k''" for a
    using Clean_last [OF slash long, of a] by simp
  from this [of "id_m m"] this [of "directory m @ CHR ''/'' # id_m m"]
  show ?thesis
    by (cases "directory m = []") (simp_all add: LockPath_def path_Join_def lockTemplate_def)
qed

lemma prefixAndSuffix_candidate:
  assumes "prefixAndSuffix (lockCandidateTemplate name) = Some (prefix, suffix)"
  shows "suffix = ''.tmp''"
proof -
  have "rev (lockCandidateTemplate name) = ''pmt.*-etadidnac-'' @ rev name"
    by (simp add: lockCandidateTemplate_def)
  moreover have "CHR ''*'' \<in> set (lockCandidateTemplate name)"
    by (simp add: lockCandidateTemplate_def)
  ultimately show ?thesis
    using assms by (simp add: prefixAndSuffix_def split: if_splits)
qed

lemma CreateTemp_last:
  assumes "CreateTemp dir (lockCandidateTemplate name) ce w = (Inr candidate, w')"
  shows "last candidate = CHR ''p''"
  using assms
  by (auto simp: CreateTemp_def Let_def split: option.splits if_splits
      dest!: prefixAndSuffix_candidate)

lemma candidate_not_target:
  assumes "CreateTemp dir (lockCandidateTemplate name) ce w = (Inr candidate, w')"
  shows "candidate \<noteq> LockPath m"
  using CreateTemp_last [OF assms] LockPath_last [of m] by auto

subsection \<open>What the system calls log and change\<close>

lemma only_refl: "only P w w"
  by (simp add: only_def)

lemma only_trans: "only P w w1 \<Longrightarrow> only P w1 w2 \<Longrightarrow> only P w w2"
  by (auto simp: only_def)

lemma only_log: "only P w w1 \<Longrightarrow> P ev \<Longrightarrow> only P w (log_event ev w1)"
  by (auto simp: only_def log_event_def)

lemma only_files: "only P w w1 \<Longrightarrow> only P w (w1\<lparr>files := fs\<rparr>)"
  by (simp add: only_def)

lemma log_event_simps [simp]:
  "trace (log_event ev w) = trace w @ [ev]" "files (log_event ev w) = files w"
  by (simp_all add: log_event_def)

lemma os_Create_eq:
  "os_Create name fails w =
     (if fails then Some OsError else None,
      log_event (EvCreate name) (if fails then w else w\<lparr>files := (files w)(name \<mapsto> [])\<rparr>))"
  by (simp add: os_Create_def)

lemma os_Remove_eq:
  "os_Remove name fails w =
     (if fails \<or> files w name = None then Some OsError else None,
      log_event (EvRemove name)
        (if fails \<or> files w name = None then w else w\<lparr>files := (files w)(name := None)\<rparr>))"
  by (simp add: os_Remove_def)

lemma os_Link_eq:
  "os_Link old new fails w =
     (if fails \<or> files w old = None \<or> files w new \<noteq> None then Some OsError else None,
      log_event (EvLink old new)
        (if fails \<or> files w old = None \<or> files w new \<noteq> None then w
         else w\<lparr>files := (files w)(new := files w old)\<rparr>))"
  by (auto simp: os_Link_def split: option.splits)

lemma readTimestamp_world: "snd (readTimestamp name fails w) = log_event (EvReadFile name) w"
  by (simp add: readTimestamp_def os_ReadFile_def split: option.splits)

lemma sleepOrDone_eq:
  "sleepOrDone ctx delay fired w =
     (has_done ctx \<and> fired, log_event (EvSleepOrDone delay (has_done ctx \<and> fired)) w)"
  by (simp add: sleepOrDone_def Let_def)

text \<open>The three parts of an iteration, as equations.\<close>

lemma rewrite_candidate_eq:
  "rewrite_candidate candidate lastTimestamp e w =
     (if create_candidate_fails e then (None, lastTimestamp, log_event (EvCreate candidate) w)
      else if write_candidate_fails e then
        (Some CannotWriteCandidate, now (clock_candidate e),
         log_event (EvWrite candidate (Sprintf_d_nl (now (clock_candidate e))))
           (log_event (EvCreate candidate) (w\<lparr>files := (files w)(candidate \<mapsto> [])\<rparr>)))
      else
        (None, now (clock_candidate e),
         log_event (EvWrite candidate (Sprintf_d_nl (now (clock_candidate e))))
           (log_event (EvCreate candidate) (w\<lparr>files := (files w)(candidate \<mapsto> [])\<rparr>)
              \<lparr>files := (files w)(candidate \<mapsto> Sprintf_d_nl (now (clock_candidate e)))\<rparr>)))"
  by (simp add: rewrite_candidate_def os_Create_eq writeCurrentTimestamp_eq)

lemma rewrite_target_eq:
  "rewrite_target m target lastTimestamp None e w =
     (None,
      if millis (refresh m) < sub64 (now (clock_linked e)) lastTimestamp then
        if create_target_fails e then log_event (EvCreate target) w
        else if write_target_fails e then
          log_event (EvWrite target (Sprintf_d_nl (now (clock_target e))))
            (log_event (EvCreate target) (w\<lparr>files := (files w)(target \<mapsto> [])\<rparr>))
        else
          log_event (EvWrite target (Sprintf_d_nl (now (clock_target e))))
            (log_event (EvCreate target) (w\<lparr>files := (files w)(target \<mapsto> [])\<rparr>)
               \<lparr>files := (files w)(target \<mapsto> Sprintf_d_nl (now (clock_target e)))\<rparr>)
      else w)"
  by (simp add: rewrite_target_def os_Create_eq writeCurrentTimestamp_eq Let_def)

lemma reclaim_dead_eq:
  "reclaim_dead m target e w =
     (if 0 \<le> deadAgeRecovery m then
        if 0 < fst (readTimestamp target (read_target_fails e) w)
           \<and> millis (deadAgeRecovery m)
               < sub64 (now (clock_dead e)) (fst (readTimestamp target (read_target_fails e) w))
        then
          log_event (EvSleep (mul64 (pulse m) 2))
            (snd (os_Remove target (remove_target_fails e) (log_event (EvReadFile target) w)))
        else log_event (EvReadFile target) w
      else w)"
  using readTimestamp_world [of target "read_target_fails e" w]
  by (simp add: reclaim_dead_def time_Sleep_def split_beta)

subsection \<open>The loop\<close>

lemma rewrite_candidate_only:
  assumes "P (EvCreate c)" and "\<And>d. P (EvWrite c d)"
  shows "only P w (snd (snd (rewrite_candidate c ts e w)))"
  using assms by (simp add: rewrite_candidate_eq only_def)


lemma reclaim_dead_disabled: "deadAgeRecovery m < 0 \<Longrightarrow> reclaim_dead m t e w = w"
  by (simp add: reclaim_dead_def)

lemma refresh_window_eq:
  "refresh_window m c t ts e w =
     (if ts = 0 \<or> millis (refresh m) < sub64 (now (clock_refresh e)) ts then
        (fst (rewrite_candidate c ts e w), fst (snd (rewrite_candidate c ts e w)),
         if fst (rewrite_candidate c ts e w) = None
         then reclaim_dead m t e (snd (snd (rewrite_candidate c ts e w)))
         else snd (snd (rewrite_candidate c ts e w)))
      else (None, ts, w))"
  unfolding refresh_window_def
  by (cases "rewrite_candidate c ts e w") (auto split: option.splits)


lemma refresh_window_only:
  assumes "P (EvCreate c)" and "\<And>d. P (EvWrite c d)"
    and "\<And>w1. only P w1 (reclaim_dead m t e w1)"
  shows "only P w (snd (snd (refresh_window m c t ts e w)))"
proof -
  have before: "only P w (snd (snd (rewrite_candidate c ts e w)))"
    using assms(1,2) by (rule rewrite_candidate_only)
  have after: "only P w (reclaim_dead m t e (snd (snd (rewrite_candidate c ts e w))))"
    using before assms(3) by (rule only_trans)
  define due where "due \<longleftrightarrow> ts = 0 \<or> millis (refresh m) < sub64 (now (clock_refresh e)) ts"
  have "snd (snd (refresh_window m c t ts e w)) =
          (if due then
             if fst (rewrite_candidate c ts e w) = None
             then reclaim_dead m t e (snd (snd (rewrite_candidate c ts e w)))
             else snd (snd (rewrite_candidate c ts e w))
           else w)"
    unfolding due_def refresh_window_eq by simp
  then show ?thesis
    using before after only_refl [of P w] by simp
qed

lemma rewrite_target_only:
  assumes "P (EvCreate t)" and "\<And>d. P (EvWrite t d)"
  shows "only P w (snd (rewrite_target m t ts None e w))"
  using assms by (simp add: rewrite_target_eq only_def)

lemma os_Link_only: "P (EvLink c t) \<Longrightarrow> only P w (snd (os_Link c t f w))"
  by (simp add: os_Link_eq only_def)

lemma sleepOrDone_only:
  "P (EvSleepOrDone d (has_done ctx \<and> f)) \<Longrightarrow> only P w (snd (sleepOrDone ctx d f w))"
  by (simp add: sleepOrDone_eq only_def)

text \<open>One iteration, told apart by how it ends.\<close>

lemma lock_loop_Cons:
  "lock_loop m ctx c t ts (e # es) w =
     (let rw = refresh_window m c t ts e w;
          lk = os_Link c t (link_fails e) (snd (snd rw));
          sl = sleepOrDone ctx (pulse m) (ctx_done e) (snd lk)
      in if fst rw \<noteq> None then Some (fst rw, snd (snd rw))
         else if fst lk = None then Some (rewrite_target m t (fst (snd rw)) None e (snd lk))
         else if fst sl then Some (Some Expired, snd sl)
         else lock_loop m ctx c t (fst (snd rw)) es (snd sl))"
  by (simp add: Let_def split_beta split: option.splits bool.splits prod.splits)

lemma lock_loop_only:
  assumes "P (EvCreate c)" and "\<And>d. P (EvWrite c d)"
    and "\<And>e w1. only P w1 (reclaim_dead m t e w1)"
    and "P (EvLink c t)" and "P (EvCreate t)" and "\<And>d. P (EvWrite t d)"
    and "\<And>b. P (EvSleepOrDone (pulse m) b)"
  shows "lock_loop m ctx c t ts es w = Some (r, w') \<Longrightarrow> only P w w'"
proof (induction es arbitrary: ts w)
  case Nil
  then show ?case by simp
next
  case (Cons e es)
  let ?rw = "refresh_window m c t ts e w"
  let ?lk = "os_Link c t (link_fails e) (snd (snd ?rw))"
  let ?sl = "sleepOrDone ctx (pulse m) (ctx_done e) (snd ?lk)"
  have rw: "only P w (snd (snd ?rw))"
    using assms(1,2,3) by (rule refresh_window_only)
  have lk: "only P w (snd ?lk)"
    using rw os_Link_only [of P, OF assms(4)] by (rule only_trans)
  have sl: "only P w (snd ?sl)"
    using lk sleepOrDone_only [of P, OF assms(7)] by (rule only_trans)
  have tg: "only P w (snd (rewrite_target m t (fst (snd ?rw)) None e (snd ?lk)))"
    using lk rewrite_target_only [of P, OF assms(5,6)] by (rule only_trans)
  from Cons.prems show ?case
    unfolding lock_loop_Cons Let_def
    using rw tg sl Cons.IH [of "fst (snd ?rw)" "snd ?sl", THEN only_trans [OF sl]]
    by (auto split: if_splits)
qed

subsection \<open>Removal of dead locks and the threshold\<close>

lemma CreateTemp_trace: "trace (snd (CreateTemp dir pattern ce w)) = trace w @ [EvCreateTemp dir pattern]"
  by (simp add: CreateTemp_def Let_def split: option.splits prod.splits)

lemma LockWithContext_Some:
  assumes "LockWithContext m ctx ce es w = Some (r, w')"
  shows "(\<exists>w1. CreateTemp (directory m) (lockCandidateTemplate (id_m m)) ce w = (Inl OsError, w1)
            \<and> r = Some CannotCreateCandidate \<and> w' = w1)
       \<or> (\<exists>c w1 w2. CreateTemp (directory m) (lockCandidateTemplate (id_m m)) ce w = (Inr c, w1)
            \<and> lock_loop m ctx c (LockPath m) 0 es w1 = Some (r, w2)
            \<and> w' = snd (os_Remove c (cleanup_fails ce) w2))"
proof (cases "CreateTemp (directory m) (lockCandidateTemplate (id_m m)) ce w")
  case (Pair res w1)
  show ?thesis
  proof (cases res)
    case (Inl err)
    have "err = OsError"
      using Pair Inl by (auto simp: CreateTemp_def Let_def split: option.splits if_splits)
    with assms Pair Inl show ?thesis
      by (simp add: LockWithContext_def)
  next
    case (Inr c)
    with assms Pair show ?thesis
      by (auto simp: LockWithContext_def split: option.splits)
  qed
qed

text \<open>
  Claim C2, as amended.  With a dead-age threshold below 0 a call of
  \<^verbatim>\<open>LockWithContext\<close> never reads a file, never removes the lock file and never
  sleeps with \<^verbatim>\<open>time.Sleep\<close>: the three steps of the removal of a dead lock do not
  occur in its log.  So a call that makes one of them has a threshold of 0 or more.
\<close>

theorem reclamation_disabled_below_zero:
  assumes "deadAgeRecovery m < 0"
    and "LockWithContext m ctx ce es w = Some (r, w')"
    and "trace w = []"
  shows "(\<forall>name. EvReadFile name \<notin> set (trace w'))
       \<and> EvRemove (LockPath m) \<notin> set (trace w')
       \<and> (\<forall>d. EvSleep d \<notin> set (trace w'))"
  using LockWithContext_Some [OF assms(2)]
proof (elim disjE exE conjE)
  fix w1
  assume "CreateTemp (directory m) (lockCandidateTemplate (id_m m)) ce w = (Inl OsError, w1)"
    and "w' = w1"
  then have "trace w' = [EvCreateTemp (directory m) (lockCandidateTemplate (id_m m))]"
    using CreateTemp_trace [of "directory m" "lockCandidateTemplate (id_m m)" ce w] assms(3)
    by simp
  then show ?thesis by simp
next
  fix c w1 w2
  assume temp: "CreateTemp (directory m) (lockCandidateTemplate (id_m m)) ce w = (Inr c, w1)"
    and loop: "lock_loop m ctx c (LockPath m) 0 es w1 = Some (r, w2)"
    and final: "w' = snd (os_Remove c (cleanup_fails ce) w2)"
  have start: "trace w1 = [EvCreateTemp (directory m) (lockCandidateTemplate (id_m m))]"
    using CreateTemp_trace [of "directory m" "lockCandidateTemplate (id_m m)" ce w] temp assms(3)
    by simp
  have "only (\<lambda>ev. \<not> reclaim_event ev) w1 w2"
    using loop
    by (rule lock_loop_only [rotated -1])
      (simp_all add: reclaim_dead_disabled [OF assms(1)] only_refl)
  then have inner: "\<forall>ev \<in> set (trace w2). \<not> reclaim_event ev"
    using start by (auto simp: only_def)
  have differ: "c \<noteq> LockPath m"
    using temp by (rule candidate_not_target)
  have "trace w' = trace w2 @ [EvRemove c]"
    using final by (simp add: os_Remove_eq)
  then show ?thesis
    using inner differ by auto
qed

lemma run_result:
  assumes "map_option (\<lambda>(r, w'). (r, trace w', files w' name)) run = Some (r, tr, content)"
  obtains w' where "run = Some (r, w')" and "trace w' = tr" and "files w' name = content"
  using assms by (cases run) auto

theorem reclamation_disabled_below_zero_witness:
  "deadAgeRecovery (lock_mutex (- 1)) < 0
   \<and> trace (held_world (''1000'' @ [CHR 0x0A])) = []
   \<and> (case LockWithContext (lock_mutex (- 1)) (WithCancel Background) plain_call
             [calm 5000000000, (calm 5500000000)\<lparr>ctx_done := True\<rparr>]
             (held_world (''1000'' @ [CHR 0x0A])) of
         None \<Rightarrow> False
       | Some (r, w') \<Rightarrow>
           r = Some Expired
           \<and> EvReadFile (LockPath (lock_mutex (- 1))) \<notin> set (trace w')
           \<and> EvRemove (LockPath (lock_mutex (- 1))) \<notin> set (trace w')
           \<and> EvSleep (mul64 (pulse (lock_mutex (- 1))) 2) \<notin> set (trace w'))"
proof -
  let ?run = "LockWithContext (lock_mutex (- 1)) (WithCancel Background) plain_call
                [calm 5000000000, (calm 5500000000)\<lparr>ctx_done := True\<rparr>]
                (held_world (''1000'' @ [CHR 0x0A]))"
  have below: "deadAgeRecovery (lock_mutex (- 1)) < 0"
    by (simp add: lock_mutex_def)
  have fresh: "trace (held_world (''1000'' @ [CHR 0x0A])) = []"
    by (simp add: held_world_def)
  have "map_option (\<lambda>(r, w'). (r, trace w', files w' ''/tmp/lock/lock-mutex.lck'')) ?run
          = Some (Some Expired,
                  [EvCreateTemp ''/tmp/lock'' ''lock-candidate-*.tmp'',
                   EvCreate ''/tmp/lock/lock-candidate-123.tmp'',
                   EvWrite ''/tmp/lock/lock-candidate-123.tmp'' (''5000'' @ [CHR 0x0A]),
                   EvLink ''/tmp/lock/lock-candidate-123.tmp'' ''/tmp/lock/lock-mutex.lck'',
                   EvSleepOrDone 500000000 False,
                   EvLink ''/tmp/lock/lock-candidate-123.tmp'' ''/tmp/lock/lock-mutex.lck'',
                   EvSleepOrDone 500000000 True,
                   EvRemove ''/tmp/lock/lock-candidate-123.tmp''],
                  Some (''1000'' @ [CHR 0x0A]))"
    by code_simp
  then obtain w' where run: "?run = Some (Some Expired, w')"
    by (rule run_result)
  from reclamation_disabled_below_zero [OF below run fresh] below fresh run
  show ?thesis
    by simp
qed

text \<open>
  Claim C2 as stated fails at the threshold 0, which the guard
  \<^verbatim>\<open>m.deadAgeRecovery >= 0\<close> lets through: the lock file holds the timestamp 1000, the
  clock reads 5000 ms, and the call reads the lock file, removes it, sleeps two
  pulses and takes the lock.
\<close>

theorem reclamation_at_zero_counterexample:
  "deadAgeRecovery (lock_mutex 0) \<le> 0
   \<and> map_option (\<lambda>(r, w'). (r, trace w', files w' ''/tmp/lock/lock-mutex.lck''))
       (LockWithContext (lock_mutex 0) Background plain_call [calm 5000000000]
          (held_world (''1000'' @ [CHR 0x0A])))
     = Some (None,
             [EvCreateTemp ''/tmp/lock'' ''lock-candidate-*.tmp'',
              EvCreate ''/tmp/lock/lock-candidate-123.tmp'',
              EvWrite ''/tmp/lock/lock-candidate-123.tmp'' (''5000'' @ [CHR 0x0A]),
              EvReadFile ''/tmp/lock/lock-mutex.lck'',
              EvRemove ''/tmp/lock/lock-mutex.lck'',
              EvSleep 1000000000,
              EvLink ''/tmp/lock/lock-candidate-123.tmp'' ''/tmp/lock/lock-mutex.lck'',
              EvRemove ''/tmp/lock/lock-candidate-123.tmp''],
             Some (''5000'' @ [CHR 0x0A]))
   \<and> LockPath (lock_mutex 0) = ''/tmp/lock/lock-mutex.lck''"
  by code_simp

subsection \<open>Which lock files are removed as dead\<close>

lemma readTimestamp_value:
  "fst (readTimestamp name fails w) =
     (if fails then 0
      else case files w name of
             None \<Rightarrow> 0
           | Some b \<Rightarrow> (case ParseInt (TrimSpace b) of None \<Rightarrow> 0 | Some v \<Rightarrow> v))"
  by (simp add: readTimestamp_def os_ReadFile_def split: option.splits)

lemma reclaim_dead_kept:
  assumes "fst (readTimestamp target (read_target_fails e) w) \<le> 0"
  shows "reclaim_dead m target e w
           = (if 0 \<le> deadAgeRecovery m then log_event (EvReadFile target) w else w)"
  using assms by (simp add: reclaim_dead_eq)

text \<open>
  Claim C9.  The removal step leaves the files as they are, and does not call
  \<^verbatim>\<open>os.Remove\<close>, when the lock file cannot be read, is absent, holds no 64-bit
  decimal, or holds a number that is 0 or negative.  When the step does call
  \<^verbatim>\<open>os.Remove\<close> on the lock file, the threshold is 0 or more and the lock file holds a
  number above 0 that lies further back than the threshold.
\<close>

theorem reclaim_dead_positive_only:
  "((read_target_fails e \<or> files w target = None
      \<or> (\<exists>b. files w target = Some b
            \<and> (ParseInt (TrimSpace b) = None \<or> (\<exists>v. ParseInt (TrimSpace b) = Some v \<and> v \<le> 0))))
     \<longrightarrow> files (reclaim_dead m target e w) = files w
         \<and> EvRemove target \<notin> set (drop (length (trace w)) (trace (reclaim_dead m target e w))))
   \<and> (EvRemove target \<in> set (drop (length (trace w)) (trace (reclaim_dead m target e w)))
     \<longrightarrow> 0 \<le> deadAgeRecovery m \<and> \<not> read_target_fails e
         \<and> (\<exists>b v. files w target = Some b \<and> ParseInt (TrimSpace b) = Some v \<and> 0 < v
               \<and> millis (deadAgeRecovery m) < sub64 (now (clock_dead e)) v))"
proof (intro conjI impI)
  assume "read_target_fails e \<or> files w target = None
      \<or> (\<exists>b. files w target = Some b
            \<and> (ParseInt (TrimSpace b) = None \<or> (\<exists>v. ParseInt (TrimSpace b) = Some v \<and> v \<le> 0)))"
  then have "fst (readTimestamp target (read_target_fails e) w) \<le> 0"
    by (auto simp: readTimestamp_value)
  then have kept: "reclaim_dead m target e w
                     = (if 0 \<le> deadAgeRecovery m then log_event (EvReadFile target) w else w)"
    by (rule reclaim_dead_kept)
  show "files (reclaim_dead m target e w) = files w"
    by (simp add: kept)
  show "EvRemove target \<notin> set (drop (length (trace w)) (trace (reclaim_dead m target e w)))"
    by (simp add: kept)
next
  assume removed: "EvRemove target \<in> set (drop (length (trace w)) (trace (reclaim_dead m target e w)))"
  let ?ts = "fst (readTimestamp target (read_target_fails e) w)"
  have enabled: "0 \<le> deadAgeRecovery m"
    using removed by (auto simp: reclaim_dead_eq split: if_splits)
  have old: "0 < ?ts \<and> millis (deadAgeRecovery m) < sub64 (now (clock_dead e)) ?ts"
    using removed enabled by (auto simp: reclaim_dead_eq split: if_splits)
  then have "0 < ?ts" ..
  then have stored: "\<not> read_target_fails e
      \<and> (\<exists>b. files w target = Some b \<and> ParseInt (TrimSpace b) = Some ?ts)"
    by (auto simp: readTimestamp_value split: if_splits option.splits)
  show "0 \<le> deadAgeRecovery m" by (rule enabled)
  show "\<not> read_target_fails e" using stored ..
  show "\<exists>b v. files w target = Some b \<and> ParseInt (TrimSpace b) = Some v \<and> 0 < v
          \<and> millis (deadAgeRecovery m) < sub64 (now (clock_dead e)) v"
    using stored old by blast
qed

theorem reclaim_dead_positive_only_witness:
  "files (held_world (''-5'' @ [CHR 0x0A])) ''/tmp/lock/lock-mutex.lck'' = Some (''-5'' @ [CHR 0x0A])
   \<and> ParseInt (TrimSpace (''-5'' @ [CHR 0x0A])) = Some (- 5) \<and> (- 5 :: int) \<le> 0
   \<and> files (reclaim_dead (lock_mutex 0) ''/tmp/lock/lock-mutex.lck'' (calm 5000000000)
              (held_world (''-5'' @ [CHR 0x0A])))
       = files (held_world (''-5'' @ [CHR 0x0A]))
   \<and> trace (reclaim_dead (lock_mutex 0) ''/tmp/lock/lock-mutex.lck'' (calm 5000000000)
              (held_world (''1000'' @ [CHR 0x0A])))
       = [EvReadFile ''/tmp/lock/lock-mutex.lck'', EvRemove ''/tmp/lock/lock-mutex.lck'',
          EvSleep 1000000000]
   \<and> 0 \<le> deadAgeRecovery (lock_mutex 0)
   \<and> (\<exists>b v. files (held_world (''1000'' @ [CHR 0x0A])) ''/tmp/lock/lock-mutex.lck'' = Some b
         \<and> ParseInt (TrimSpace b) = Some v \<and> 0 < v
         \<and> millis (deadAgeRecovery (lock_mutex 0)) < sub64 (now (clock_dead (calm 5000000000))) v)"
proof -
  let ?t = "''/tmp/lock/lock-mutex.lck''"
  have stored: "files (held_world (''-5'' @ [CHR 0x0A])) ?t = Some (''-5'' @ [CHR 0x0A])"
    by (simp add: held_world_def)
  have parsed: "ParseInt (TrimSpace (''-5'' @ [CHR 0x0A])) = Some (- 5)"
    by code_simp
  have log: "trace (reclaim_dead (lock_mutex 0) ?t (calm 5000000000)
                     (held_world (''1000'' @ [CHR 0x0A])))
               = [EvReadFile ?t, EvRemove ?t, EvSleep 1000000000]"
    by code_simp
  have start: "trace (held_world (''1000'' @ [CHR 0x0A])) = []"
    by (simp add: held_world_def)
  from reclaim_dead_positive_only
    [of "calm 5000000000" "held_world (''-5'' @ [CHR 0x0A])" ?t "lock_mutex 0"]
    reclaim_dead_positive_only
    [of "calm 5000000000" "held_world (''1000'' @ [CHR 0x0A])" ?t "lock_mutex 0"]
    stored parsed log start
  show ?thesis
    by simp
qed

subsection \<open>A lock that stays held\<close>









subsection \<open>The timeout\<close>








subsection \<open>Release\<close>





subsection \<open>The sleep after the removal of a dead lock\<close>

text \<open>
  Claim C3 fails on the code.  The wait of one pulse is \<^verbatim>\<open>sleepOrDone\<close>, which selects
  on the context; the wait of two pulses after the removal of a dead lock is
  \<^verbatim>\<open>time.Sleep\<close>, which takes no context.  Here the context is done from the start,
  the lock file holds the timestamp 1000 and the clock reads 10000000 ms, beyond
  the threshold of 60 minutes: the call removes the lock file, sleeps the two
  pulses in full, takes the lock and returns no error.
\<close>

theorem reclaim_sleep_ignores_context:
  "has_done (WithCancel Background)
   \<and> ctx_done ((calm 10000000000000)\<lparr>ctx_done := True\<rparr>)
   \<and> map_option (\<lambda>(r, w'). (r, trace w', files w' ''/tmp/lock/lock-mutex.lck''))
       (LockWithContext (lock_mutex DefaultDeadTimeout) (WithCancel Background) plain_call
          [(calm 10000000000000)\<lparr>ctx_done := True\<rparr>] (held_world (''1000'' @ [CHR 0x0A])))
     = Some (None,
             [EvCreateTemp ''/tmp/lock'' ''lock-candidate-*.tmp'',
              EvCreate ''/tmp/lock/lock-candidate-123.tmp'',
              EvWrite ''/tmp/lock/lock-candidate-123.tmp'' (''10000000'' @ [CHR 0x0A]),
              EvReadFile ''/tmp/lock/lock-mutex.lck'',
              EvRemove ''/tmp/lock/lock-mutex.lck'',
              EvSleep (2 * DefaultPulse),
              EvLink ''/tmp/lock/lock-candidate-123.tmp'' ''/tmp/lock/lock-mutex.lck'',
              EvRemove ''/tmp/lock/lock-candidate-123.tmp''],
             Some (''10000000'' @ [CHR 0x0A]))"
  by code_simp

subsection \<open>Failures to write the timestamp\<close>

text \<open>A failed write of the candidate's timestamp ends the call with an error.\<close>

lemma candidate_write_failure_returned:
  assumes "ts = 0 \<or> millis (refresh m) < sub64 (now (clock_refresh e)) ts"
    and "\<not> create_candidate_fails e" and "write_candidate_fails e"
  shows "\<exists>w'. lock_loop m ctx c t ts (e # es) w = Some (Some CannotWriteCandidate, w')"
proof -
  have "fst (refresh_window m c t ts e w) = Some CannotWriteCandidate"
    using assms by (auto simp: refresh_window_eq rewrite_candidate_eq)
  then show ?thesis
    unfolding lock_loop_Cons Let_def by simp
qed

text \<open>After a publish the result is \<^verbatim>\<open>nil\<close>, whatever happens to the write.\<close>

lemma rewrite_target_nil: "fst (rewrite_target m t ts None e w) = None"
  by (simp add: rewrite_target_eq)

text \<open>
  Claim C4 fails on the code for the lock file.  The refresh interval is 1 ms; the
  publish succeeds 10 ms after the candidate was written, so the lock file is
  opened again, and the write of the timestamp fails.  The call returns no error,
  and the lock file is left empty.
\<close>

theorem target_write_failure_swallowed:
  "write_target_fails ((calm 5000000000)\<lparr>clock_linked := 5010000000, clock_target := 5010000000,
                                          write_target_fails := True\<rparr>)
   \<and> map_option (\<lambda>(r, w'). (r, trace w', files w' ''/tmp/lock/lock-mutex.lck''))
       (LockWithContext ((lock_mutex (- 1))\<lparr>refresh := Millisecond\<rparr>) Background plain_call
          [(calm 5000000000)\<lparr>clock_linked := 5010000000, clock_target := 5010000000,
                              write_target_fails := True\<rparr>]
          empty_world)
     = Some (None,
             [EvCreateTemp ''/tmp/lock'' ''lock-candidate-*.tmp'',
              EvCreate ''/tmp/lock/lock-candidate-123.tmp'',
              EvWrite ''/tmp/lock/lock-candidate-123.tmp'' (''5000'' @ [CHR 0x0A]),
              EvLink ''/tmp/lock/lock-candidate-123.tmp'' ''/tmp/lock/lock-mutex.lck'',
              EvCreate ''/tmp/lock/lock-mutex.lck'',
              EvWrite ''/tmp/lock/lock-mutex.lck'' (''5010'' @ [CHR 0x0A]),
              EvRemove ''/tmp/lock/lock-candidate-123.tmp''],
             Some [])"
  by code_simp

end
